theory Spec2Isabelle
  imports Main
begin

section \<open>The validation handle of a row\<close>

text \<open>
  A row of the table (class \<open>TableElementReactiveForms\<close>) keeps its data and its editing
  flag inside a form group: \<open>editing\<close> is the group's enabled state and \<open>currentData\<close> its
  raw value. The form group belongs to the forms library; the row only calls
  \<open>enable\<close>, \<open>disable\<close>, \<open>patchValue\<close>, \<open>getRawValue\<close> and reads \<open>disabled\<close>, \<open>enabled\<close>,
  \<open>valid\<close> and \<open>controls\<close>. The handle is therefore a record of the disabled flag, the raw
  value and the names of the controls; what the library answers for \<open>valid\<close> is a parameter
  of the model (field \<open>valid\<close> of the collaborators below), a function of the handle.
  \<open>patchValue\<close> writes the fields of the data into the controls of the same names and
  leaves the other controls alone; the raw value it produces from the old raw value and
  the data is a parameter too (field \<open>patchControls\<close>), given to the functions that patch.
\<close>

record 'd FormGroup =
  disabled :: bool
  rawValue :: 'd
  controls :: "string list"

definition enable :: "'d FormGroup \<Rightarrow> 'd FormGroup" where
  "enable fg = fg\<lparr>disabled := False\<rparr>"

definition disable :: "'d FormGroup \<Rightarrow> 'd FormGroup" where
  "disable fg = fg\<lparr>disabled := True\<rparr>"

definition enabled :: "'d FormGroup \<Rightarrow> bool" where
  "enabled fg = (\<not> disabled fg)"

definition patchValue :: "('d \<Rightarrow> 'd \<Rightarrow> 'd) \<Rightarrow> 'd FormGroup \<Rightarrow> 'd \<Rightarrow> 'd FormGroup" where
  "patchValue pv fg data = fg\<lparr>rawValue := pv (rawValue fg) data\<rparr>"

definition getRawValue :: "'d FormGroup \<Rightarrow> 'd" where
  "getRawValue fg = rawValue fg"

section \<open>Rows\<close>

text \<open>
  \<open>row_id\<close> is the field \<open>id\<close> of the row (\<open>-1\<close> for the row being created),
  \<open>originalData\<close> is \<open>None\<close> for \<open>undefined\<close>.
\<close>

record 'd TableElement =
  row_id :: int
  originalData :: "'d option"
  validator :: "'d FormGroup"

definition currentData_get :: "'d TableElement \<Rightarrow> 'd" where
  "currentData_get row = getRawValue (validator row)"

definition currentData_set ::
  "('d \<Rightarrow> 'd \<Rightarrow> 'd) \<Rightarrow> 'd TableElement \<Rightarrow> 'd \<Rightarrow> 'd TableElement" where
  "currentData_set pv row data = row\<lparr>validator := patchValue pv (validator row) data\<rparr>"

definition editing_get :: "'d TableElement \<Rightarrow> bool" where
  "editing_get row = enabled (validator row)"

definition editing_set :: "'d TableElement \<Rightarrow> bool \<Rightarrow> 'd TableElement" where
  "editing_set row v =
     (if v then row\<lparr>validator := enable (validator row)\<rparr>
      else row\<lparr>validator := disable (validator row)\<rparr>)"

text \<open>
  The constructor of the row class stores the handle and then assigns the fields of the
  descriptor in their order: \<open>id\<close>, \<open>editing\<close>, \<open>currentData\<close> (the last two through the
  setters).
\<close>

definition TableElementReactiveForms_new ::
  "('d \<Rightarrow> 'd \<Rightarrow> 'd) \<Rightarrow> int \<Rightarrow> bool \<Rightarrow> 'd \<Rightarrow> 'd FormGroup \<Rightarrow> 'd TableElement" where
  "TableElementReactiveForms_new pv i ed data fg =
     currentData_set pv
       (editing_set \<lparr>row_id = i, originalData = None, validator = fg\<rparr> ed) data"

text \<open>
  Modelled from the spec: the row factory (\<open>TableElementFactory.createTableElement\<close>) is
  not among the sources. The specification (2, Row Factory) says it constructs a row
  from a plain descriptor (id, editing, data, validation handle, owning source); the row
  it constructs here is the one of the row class above.
\<close>

definition createTableElement ::
  "('d \<Rightarrow> 'd \<Rightarrow> 'd) \<Rightarrow> int \<Rightarrow> bool \<Rightarrow> 'd \<Rightarrow> 'd FormGroup \<Rightarrow> 'd TableElement" where
  "createTableElement pv i ed data fg = TableElementReactiveForms_new pv i ed data fg"

text \<open>
  \<open>isValid\<close> returns the validity it read together with the row as the call leaves it.
\<close>

definition isValid ::
  "('d FormGroup \<Rightarrow> bool) \<Rightarrow> 'd TableElement \<Rightarrow> bool \<times> 'd TableElement" where
  "isValid vld row =
     (if disabled (validator row) then
        (let row1 = row\<lparr>validator := enable (validator row)\<rparr>;
             v = vld (validator row1);
             row2 = row1\<lparr>validator := disable (validator row1)\<rparr>
         in (v, row2))
      else (vld (validator row), row))"

section \<open>Array operations of the host language\<close>

text \<open>\<open>findIndex\<close>: the index of the first element that satisfies the test, \<open>-1\<close> if none.\<close>

fun findIndex :: "('a \<Rightarrow> bool) \<Rightarrow> 'a list \<Rightarrow> int" where
  "findIndex P [] = -1"
| "findIndex P (x # xs) =
     (if P x then 0 else (let i = findIndex P xs in if i < 0 then -1 else i + 1))"

text \<open>
  \<open>splice(start, deleteCount, items)\<close>: a negative start counts from the end, the start is
  clamped into the array and the delete count to what is left.
\<close>

definition splice_array :: "'a list \<Rightarrow> int \<Rightarrow> nat \<Rightarrow> 'a list \<Rightarrow> 'a list" where
  "splice_array xs start deleteCount items =
     (let n = int (length xs);
          s = nat (if start < 0 then max (n + start) 0 else min start n)
      in take s xs @ items @ drop (s + deleteCount) xs)"

text \<open>
  \<open>slice(start, end)\<close> and \<open>slice(start)\<close>, with the same treatment of negative and
  overlong indices.
\<close>

definition rel_index :: "int \<Rightarrow> int \<Rightarrow> nat" where
  "rel_index n i = nat (if i < 0 then max (n + i) 0 else min i n)"

definition slice2 :: "'a list \<Rightarrow> int \<Rightarrow> int \<Rightarrow> 'a list" where
  "slice2 xs start fin =
     (let n = int (length xs); k = rel_index n start; e = rel_index n fin
      in take (e - k) (drop k xs))"

definition slice1 :: "'a list \<Rightarrow> int \<Rightarrow> 'a list" where
  "slice1 xs start = drop (rel_index (int (length xs)) start) xs"

text \<open>
  Modelled from the spec: \<open>moveItemInArray\<close> is imported from the drag-and-drop library and
  is not part of the repository. The specification (4.3, \<open>move\<close>) says the row is relocated
  to \<open>index + direction\<close> within the sequence. Both indices are clamped into the array, so
  that the function is total; an in-range move takes the element out and puts it back at
  the target index.
\<close>

definition clamp :: "int \<Rightarrow> int \<Rightarrow> int" where
  "clamp v mx = max 0 (min mx v)"

definition moveItemInArray :: "'a list \<Rightarrow> int \<Rightarrow> int \<Rightarrow> 'a list" where
  "moveItemInArray array fromIndex toIndex =
     (let from = nat (clamp fromIndex (int (length array) - 1));
          to = nat (clamp toIndex (int (length array) - 1))
      in if from = to then array
         else (let target = array ! from;
                   rest = take from array @ drop (Suc from) array
               in take to rest @ [target] @ drop to rest))"

section \<open>The data source\<close>

record TableDataSourceOptions =
  prependNewElements :: bool
  suppressErrors :: bool
  keepOriginalDataAfterConfirm :: bool

text \<open>
  The collaborators the data source is given and the library calls it makes:
  \<open>valid\<close> is the validity the forms library reports for a handle, \<open>getRowValidator\<close> the
  fresh handle of the validator service, \<open>patchControls old data\<close> the raw value of a
  handle after \<open>patchValue(data)\<close> when it was \<open>old\<close> before, \<open>keysOf\<close> is \<open>Object.keys\<close>
  on a record and \<open>undefinedObject\<close> builds the record with the given keys, all undefined.
\<close>

record 'd Collaborators =
  valid :: "'d FormGroup \<Rightarrow> bool"
  getRowValidator :: "'d FormGroup"
  patchControls :: "'d \<Rightarrow> 'd \<Rightarrow> 'd"
  keysOf :: "'d \<Rightarrow> string list"
  undefinedObject :: "string list \<Rightarrow> 'd"

text \<open>
  A record collection is an array object: what is compared by \<open>!==\<close> is its identity.
  \<open>Supplied k\<close> is an array made by a caller, \<open>Extracted k\<close> the \<open>k\<close>-th array that
  \<open>getDataFromRows\<close> built.
\<close>

datatype dataref = Supplied nat | Extracted nat

text \<open>
  What the two subjects emit: the row channel emits the array of rows (the addresses of
  the row objects, in order), the output channel a record collection.
\<close>

datatype 'd event = RowsNext "nat list" | DatasourceNext dataref "'d list"

text \<open>
  The state of a data source. Rows are objects that several operations change in place,
  so they live in a store: \<open>heap\<close> holds every row object created so far and an address is
  an index into it. \<open>rowsSubject\<close> is the current value of the row subject, \<open>events\<close> the
  emissions of both subjects in order (one entry for each call of \<open>next\<close>; the value the
  row subject is created with is its current value and no entry), \<open>console\<close> what
  \<open>console.error\<close> printed. An operation that publishes a changed array and one that
  publishes a new array both store it as the current value.
\<close>

record 'd TableDataSource =
  heap :: "'d TableElement list"
  rowsSubject :: "nat list"
  currentData :: "dataref option"
  extracted :: nat
  config :: TableDataSourceOptions
  dataConstructor :: "'d option"
  dataKeys :: "string list"
  events :: "'d event list"
  console :: "string list"

definition getRowIdFromIndex :: "TableDataSourceOptions \<Rightarrow> int \<Rightarrow> int \<Rightarrow> int" where
  "getRowIdFromIndex cfg index count =
     (if prependNewElements cfg then count - 1 - index else index)"

definition getIndexFromRowId :: "'d TableElement list \<Rightarrow> int \<Rightarrow> nat list \<Rightarrow> int" where
  "getIndexFromRowId h i source = findIndex (\<lambda>element. row_id (h ! element) = i) source"

definition getNewRowIndex :: "'d TableElement list \<Rightarrow> nat list \<Rightarrow> int" where
  "getNewRowIndex h source = getIndexFromRowId h (-1) source"

definition existsNewElement :: "'d TableElement list \<Rightarrow> nat list \<Rightarrow> bool" where
  "existsNewElement h source = (length source > 0 \<and> getNewRowIndex h source > -1)"

text \<open>The loop of \<open>updateRowIds\<close>: it returns the store with the ids rewritten.\<close>

function updateRowIds_loop ::
  "TableDataSourceOptions \<Rightarrow> int \<Rightarrow> nat list \<Rightarrow> 'd TableElement list \<Rightarrow> 'd TableElement list"
  where
  "updateRowIds_loop cfg index source h =
     (if index < int (length source) \<and> index \<ge> 0 then
        updateRowIds_loop cfg (index + (if prependNewElements cfg then -1 else 1)) source
          (if row_id (h ! (source ! nat index)) \<noteq> -1
           then h[source ! nat index :=
                    (h ! (source ! nat index))
                      \<lparr>row_id := getRowIdFromIndex cfg index (int (length source))\<rparr>]
           else h)
      else h)"
  by pat_completeness auto
termination
  by (relation "measure (\<lambda>(cfg, index, source, h).
        if prependNewElements cfg then nat (index + 1) else nat (int (length source) - index))")
     auto

declare updateRowIds_loop.simps [simp del]

definition updateRowIds ::
  "TableDataSourceOptions \<Rightarrow> int \<Rightarrow> nat list \<Rightarrow> 'd TableElement list \<Rightarrow> 'd TableElement list"
  where
  "updateRowIds cfg initialIndex source h = updateRowIds_loop cfg initialIndex source h"

definition getDataFromRows ::
  "TableDataSourceOptions \<Rightarrow> 'd TableElement list \<Rightarrow> nat list \<Rightarrow> 'd list" where
  "getDataFromRows cfg h rows =
     map (\<lambda>row. if \<not> keepOriginalDataAfterConfirm cfg \<and> originalData (h ! row) \<noteq> None
               then the (originalData (h ! row)) else currentData_get (h ! row))
       (filter (\<lambda>row. row_id (h ! row) \<noteq> -1) rows)"

definition updateDatasourceFromRows :: "'d TableDataSource \<Rightarrow> nat list \<Rightarrow> 'd TableDataSource" where
  "updateDatasourceFromRows s rows =
     s\<lparr>currentData := Some (Extracted (extracted s)),
       extracted := Suc (extracted s),
       events := events s @ [DatasourceNext (Extracted (extracted s))
                                (getDataFromRows (config s) (heap s) rows)]\<rparr>"

text \<open>
  \<open>getRowsFromData\<close> creates one row object for each record; it returns the store with the
  new objects and the array of their addresses.
\<close>

definition getRowsFromData ::
  "'d Collaborators \<Rightarrow> TableDataSourceOptions \<Rightarrow> 'd TableElement list \<Rightarrow> 'd list
     \<Rightarrow> 'd TableElement list \<times> nat list" where
  "getRowsFromData cs cfg h arrayData =
     (h @ map (\<lambda>(data, index).
                 createTableElement (patchControls cs)
                   (getRowIdFromIndex cfg (int index) (int (length arrayData)))
                   False data (getRowValidator cs))
            (zip arrayData [0 ..< length arrayData]),
      [length h ..< length h + length arrayData])"

definition createNewObject :: "'d Collaborators \<Rightarrow> 'd TableDataSource \<Rightarrow> 'd" where
  "createNewObject cs s =
     (case dataConstructor s of Some c \<Rightarrow> c | None \<Rightarrow> undefinedObject cs (dataKeys s))"

subsection \<open>Construction\<close>

definition logError :: "TableDataSourceOptions \<Rightarrow> string \<Rightarrow> string list \<Rightarrow> string list" where
  "logError cfg message out = (if \<not> suppressErrors cfg then out @ [message] else out)"

fun toString :: "string list \<Rightarrow> string" where
  "toString [] = []"
| "toString [k] = k"
| "toString (k # ks) = k @ '','' @ toString ks"

text \<open>
  \<open>checkValidatorFields\<close> takes the handle the validator service returned (\<open>None\<close> for
  \<open>null\<close>) and the keys of a new record; it returns what the console holds afterwards.
\<close>

definition checkValidatorFields ::
  "TableDataSourceOptions \<Rightarrow> 'd FormGroup option \<Rightarrow> string list \<Rightarrow> string list \<Rightarrow> string list"
  where
  "checkValidatorFields cfg formGroup rowKeys out =
     (if \<not> suppressErrors cfg then out
      else (case formGroup of
              None \<Rightarrow> out
            | Some fg \<Rightarrow>
                (let invalidKeys = filter (\<lambda>key. \<not> list_ex (\<lambda>x. x = key) rowKeys) (controls fg)
                 in if length invalidKeys > 0
                    then logError cfg
                           (''Validator form control keys must match row object keys. Invalid keys: ''
                              @ toString invalidKeys) out
                    else out)))"

datatype error = NoDataNoType

text \<open>
  The constructor. \<open>dataType\<close> is the record a call of the record class's constructor
  yields, \<open>None\<close> when the class is not given; the options are the defaults overridden by
  what the caller gives.
\<close>

definition defaultOptions :: TableDataSourceOptions where
  "defaultOptions =
     \<lparr>prependNewElements = False, suppressErrors = False, keepOriginalDataAfterConfirm = False\<rparr>"

definition TableDataSource_new ::
  "'d Collaborators \<Rightarrow> 'd list \<Rightarrow> 'd option \<Rightarrow> TableDataSourceOptions
     \<Rightarrow> error + 'd TableDataSource" where
  "TableDataSource_new cs data dataType cfg =
     (if dataType = None \<and> \<not> length data > 0 then Inl NoDataNoType
      else
        (let s0 = \<lparr>heap = [], rowsSubject = [], currentData = None, extracted = 0,
                   config = cfg, dataConstructor = dataType,
                   dataKeys = (if dataType = None then keysOf cs (data ! 0) else []),
                   events = [], console = []\<rparr>;
             out = checkValidatorFields cfg (Some (getRowValidator cs))
                     (keysOf cs (createNewObject cs s0)) [];
             (h, rows) = getRowsFromData cs cfg [] data
         in Inr (s0\<lparr>heap := h, rowsSubject := rows, console := out\<rparr>)))"

subsection \<open>Operations\<close>

text \<open>
  \<open>createNew\<close>: \<open>insertAt\<close> is \<open>None\<close> when the argument is absent. The test
  \<open>if (insertAt)\<close> holds for a number that is not zero.
\<close>

definition createNew ::
  "'d Collaborators \<Rightarrow> 'd TableDataSource \<Rightarrow> int option \<Rightarrow> 'd TableDataSource" where
  "createNew cs s insertAt =
     (let source = rowsSubject s in
      if \<not> existsNewElement (heap s) source then
        (let newElement = length (heap s);
             h = heap s @ [createTableElement (patchControls cs) (-1) True (createNewObject cs s)
                             (getRowValidator cs)]
         in if insertAt \<noteq> None \<and> the insertAt \<noteq> 0 then
              (let source' = splice_array source (the insertAt) 0 [newElement]
               in s\<lparr>heap := h, rowsSubject := source', events := events s @ [RowsNext source']\<rparr>)
            else if prependNewElements (config s) then
              s\<lparr>heap := h, rowsSubject := [newElement] @ source,
                events := events s @ [RowsNext ([newElement] @ source)]\<rparr>
            else
              s\<lparr>heap := h, rowsSubject := source @ [newElement],
                events := events s @ [RowsNext (source @ [newElement])]\<rparr>)
      else s)"

definition confirmCreate ::
  "'d Collaborators \<Rightarrow> 'd TableDataSource \<Rightarrow> nat \<Rightarrow> bool \<times> 'd TableDataSource" where
  "confirmCreate cs s row =
     (let (v, r0) = isValid (valid cs) (heap s ! row);
          s0 = s\<lparr>heap := (heap s)[row := r0]\<rparr>
      in if \<not> v then (False, s0)
         else
           (let source = rowsSubject s0;
                r1 = r0\<lparr>row_id := int (length source) - 1\<rparr>;
                s1 = s0\<lparr>heap := (heap s0)[row := r1], events := events s0 @ [RowsNext source]\<rparr>;
                r2 = (if keepOriginalDataAfterConfirm (config s1)
                      then r1\<lparr>originalData := Some (currentData_get r1)\<rparr> else r1);
                r3 = editing_set r2 False;
                s2 = s1\<lparr>heap := (heap s1)[row := r3]\<rparr>
            in (True, updateDatasourceFromRows s2 source)))"

text \<open>
  \<open>confirmEdit\<close>: the assignment \<open>source[index] = row\<close> with \<open>index = -1\<close> sets a property
  of the array object and changes none of its elements.
\<close>

definition confirmEdit ::
  "'d Collaborators \<Rightarrow> 'd TableDataSource \<Rightarrow> nat \<Rightarrow> bool \<times> 'd TableDataSource" where
  "confirmEdit cs s row =
     (let (v, r0) = isValid (valid cs) (heap s ! row);
          s0 = s\<lparr>heap := (heap s)[row := r0]\<rparr>
      in if \<not> v then (False, s0)
         else
           (let index = getIndexFromRowId (heap s0) (row_id r0) (rowsSubject s0);
                source = (if index \<ge> 0 then (rowsSubject s0)[nat index := row] else rowsSubject s0);
                s1 = s0\<lparr>rowsSubject := source, events := events s0 @ [RowsNext source]\<rparr>;
                r1 = (if \<not> keepOriginalDataAfterConfirm (config s1)
                      then r0\<lparr>originalData := None\<rparr> else r0);
                r2 = editing_set r1 False;
                s2 = s1\<lparr>heap := (heap s1)[row := r2]\<rparr>
            in (True, updateDatasourceFromRows s2 source)))"

definition delete :: "'d TableDataSource \<Rightarrow> int \<Rightarrow> 'd TableDataSource" where
  "delete s i =
     (let index = getIndexFromRowId (heap s) i (rowsSubject s);
          source = splice_array (rowsSubject s) index 1 [];
          h = updateRowIds (config s) index source (heap s);
          s1 = s\<lparr>heap := h, rowsSubject := source, events := events s @ [RowsNext source]\<rparr>
      in if i \<noteq> -1 then updateDatasourceFromRows s1 source else s1)"

definition move :: "'d TableDataSource \<Rightarrow> int \<Rightarrow> int \<Rightarrow> 'd TableDataSource" where
  "move s i direction =
     (if direction = 0 then s
      else
        (let index = getIndexFromRowId (heap s) i (rowsSubject s);
             source = moveItemInArray (rowsSubject s) index (index + direction);
             h = updateRowIds (config s) 0 source (heap s);
             s1 = s\<lparr>heap := h, rowsSubject := source, events := events s @ [RowsNext source]\<rparr>
         in if i \<noteq> -1 then updateDatasourceFromRows s1 source else s1))"

definition getRow :: "'d TableDataSource \<Rightarrow> int \<Rightarrow> nat option" where
  "getRow s i =
     (let index = getIndexFromRowId (heap s) i (rowsSubject s)
      in if index \<ge> 0 \<and> index < int (length (rowsSubject s))
         then Some (rowsSubject s ! nat index) else None)"

definition updateDatasource ::
  "'d Collaborators \<Rightarrow> 'd TableDataSource \<Rightarrow> dataref \<Rightarrow> 'd list \<Rightarrow> bool \<Rightarrow> 'd TableDataSource"
  where
  "updateDatasource cs s ref data emitEvent =
     (if currentData s \<noteq> Some ref then
        (let (h, rows) = getRowsFromData cs (config s) (heap s) data;
             s1 = s\<lparr>currentData := Some ref, heap := h, rowsSubject := rows,
                    events := events s @ [RowsNext rows]\<rparr>
         in if emitEvent then s1\<lparr>events := events s1 @ [DatasourceNext ref data]\<rparr> else s1)
      else s)"

subsection \<open>Windowed delivery\<close>

text \<open>
  \<open>connect\<close> maps every array the row subject emits through the range the viewer reported
  last (\<open>start = 0\<close>, \<open>end = -1\<close> until it reports one).
\<close>

record ListRange =
  range_start :: int
  range_end :: int

definition initialRange :: ListRange where
  "initialRange = \<lparr>range_start = 0, range_end = -1\<rparr>"

definition connect_map :: "ListRange \<Rightarrow> 'a list \<Rightarrow> 'a list" where
  "connect_map rng data =
     (if range_start rng > 0 then
        (if range_end rng > range_start rng
         then slice2 data (range_start rng) (range_end rng)
         else slice1 data (range_start rng))
      else data)"

subsection \<open>Sequences of operations\<close>

text \<open>
  The mutating operations a caller can invoke on a data source. A row argument is the
  address of a row object; a caller can only hold a row object that exists, so a step
  with an address outside the store is not an execution (\<open>None\<close>).
\<close>

datatype 'd operation =
    CreateNew "int option"
  | ConfirmCreate nat
  | ConfirmEdit nat
  | Delete int
  | Move int int
  | UpdateDatasource dataref "'d list" bool

fun step :: "'d Collaborators \<Rightarrow> 'd TableDataSource \<Rightarrow> 'd operation \<Rightarrow> 'd TableDataSource option"
  where
  "step cs s (CreateNew insertAt) = Some (createNew cs s insertAt)"
| "step cs s (ConfirmCreate row) =
     (if row < length (heap s) then Some (snd (confirmCreate cs s row)) else None)"
| "step cs s (ConfirmEdit row) =
     (if row < length (heap s) then Some (snd (confirmEdit cs s row)) else None)"
| "step cs s (Delete i) = Some (delete s i)"
| "step cs s (Move i direction) = Some (move s i direction)"
| "step cs s (UpdateDatasource ref data emitEvent) = Some (updateDatasource cs s ref data emitEvent)"

fun run :: "'d Collaborators \<Rightarrow> 'd TableDataSource \<Rightarrow> 'd operation list \<Rightarrow> 'd TableDataSource option"
  where
  "run cs s [] = Some s"
| "run cs s (x # xs) = (case step cs s x of None \<Rightarrow> None | Some s' \<Rightarrow> run cs s' xs)"

text \<open>The ids of the rows of the sequence, in order, and the number of pending rows.\<close>

definition rowIds :: "'d TableDataSource \<Rightarrow> int list" where
  "rowIds s = map (\<lambda>row. row_id (heap s ! row)) (rowsSubject s)"

definition pendingCount :: "'d TableDataSource \<Rightarrow> nat" where
  "pendingCount s = length (filter (\<lambda>i. i = -1) (rowIds s))"

text \<open>
  The numbering a mode prescribes for \<open>n\<close> committed rows: \<open>0, 1, ..., n - 1\<close> when rows are
  appended, \<open>n - 1, ..., 1, 0\<close> when they are prepended.
\<close>

definition numbering :: "TableDataSourceOptions \<Rightarrow> nat \<Rightarrow> int list" where
  "numbering cfg n =
     (if prependNewElements cfg then rev (map int [0 ..< n]) else map int [0 ..< n])"

definition committedIds :: "'d TableDataSource \<Rightarrow> int list" where
  "committedIds s = filter (\<lambda>i. i \<noteq> -1) (rowIds s)"

definition idsConsistent :: "'d TableDataSource \<Rightarrow> bool" where
  "idsConsistent s = (committedIds s = numbering (config s) (length (committedIds s)))"

text \<open>
  The number of pending rows among the rows of an array, for a given store, and the
  well-formedness of a state: every row of the sequence is an object of the store.
\<close>

definition pending :: "'d TableElement list \<Rightarrow> nat list \<Rightarrow> nat" where
  "pending h rows = length (filter (\<lambda>row. row_id (h ! row) = -1) rows)"

definition wellFormed :: "'d TableDataSource \<Rightarrow> bool" where
  "wellFormed s = (\<forall>row \<in> set (rowsSubject s). row < length (heap s))"

section \<open>Example data\<close>

text \<open>
  Records of a person list (name, age). \<open>personValidator\<close> asks for a name that is not
  empty; \<open>acceptAll\<close> finds every row valid; the handle of \<open>mismatchedValidator\<close> has a
  control \<open>years\<close> that is no field of the record, so a patch writes the name and leaves
  the second control as it was. The controls of the other two are the fields of the
  record, and a patch replaces both.
\<close>

type_synonym person = "string \<times> nat"

definition personValidator :: "person Collaborators" where
  "personValidator =
     \<lparr>valid = (\<lambda>fg. \<not> disabled fg \<and> fst (rawValue fg) \<noteq> []),
      getRowValidator = \<lparr>disabled = False, rawValue = ([], 0), controls = [''name'', ''age'']\<rparr>,
      patchControls = (\<lambda>old data. data),
      keysOf = (\<lambda>_. [''name'', ''age'']),
      undefinedObject = (\<lambda>_. ([], 0))\<rparr>"

definition acceptAll :: "person Collaborators" where
  "acceptAll = personValidator\<lparr>valid := (\<lambda>fg. True)\<rparr>"

definition mismatchedValidator :: "person Collaborators" where
  "mismatchedValidator =
     personValidator\<lparr>getRowValidator :=
       \<lparr>disabled = False, rawValue = ([], 0), controls = [''name'', ''years'']\<rparr>,
       patchControls := (\<lambda>old data. (fst data, snd old))\<rparr>"

definition prependOptions :: TableDataSourceOptions where
  "prependOptions = defaultOptions\<lparr>prependNewElements := True\<rparr>"

definition tenRows :: "string list" where
  "tenRows = [''r0'', ''r1'', ''r2'', ''r3'', ''r4'', ''r5'', ''r6'', ''r7'', ''r8'', ''r9'']"

text \<open>A data source as the constructor leaves it for the records A, B, C.\<close>

definition people :: "TableDataSourceOptions \<Rightarrow> person TableDataSource" where
  "people cfg =
     (case TableDataSource_new acceptAll [(''A'', 1), (''B'', 2), (''C'', 3)] (Some ([], 0)) cfg of
        Inr s \<Rightarrow> s)"

text \<open>The same data source after \<open>createNew()\<close>: the pending row is the object at address 3.\<close>

definition withPending :: "person Collaborators \<Rightarrow> TableDataSourceOptions \<Rightarrow> person TableDataSource"
  where
  "withPending cs cfg = createNew cs (people cfg) None"

section \<open>The validity check of a row\<close>

lemma isValid_row: "snd (isValid vld row) = row"
  by (cases row) (auto simp: isValid_def Let_def enable_def disable_def)

text \<open>
  C8. \<open>isValid\<close> leaves the row, and so the enabled or disabled state of its handle and the
  editing flag read from it, as it was on entry, and the validity it returns is the one
  the library reports for the handle in its enabled state.
\<close>

theorem isValid_transient:
  "snd (isValid vld row) = row
   \<and> disabled (validator (snd (isValid vld row))) = disabled (validator row)
   \<and> editing_get (snd (isValid vld row)) = editing_get row
   \<and> fst (isValid vld row) = vld (enable (validator row))
   \<and> \<not> disabled (enable (validator row))"
proof -
  have r: "snd (isValid vld row) = row" by (rule isValid_row)
  have "fst (isValid vld row) = vld (enable (validator row))"
  proof (cases "disabled (validator row)")
    case True
    then show ?thesis by (simp add: isValid_def Let_def)
  next
    case False
    then have "enable (validator row) = validator row"
      by (cases "validator row") (simp add: enable_def)
    with False show ?thesis by (simp add: isValid_def)
  qed
  with r show ?thesis by (simp add: enable_def)
qed

section \<open>The diagnostic of the constructor\<close>

lemma checkValidatorFields_silent: "checkValidatorFields cfg fg rowKeys out = out"
  by (simp add: checkValidatorFields_def logError_def Let_def split: option.splits)

lemma constructor_console:
  "TableDataSource_new cs data dataType cfg = Inr s \<Longrightarrow> console s = []"
  by (auto simp: TableDataSource_new_def Let_def checkValidatorFields_silent
      split: if_splits prod.splits)

text \<open>
  C4. With errors not suppressed and a handle whose control \<open>years\<close> is no field of the
  record, the constructor prints nothing: \<open>checkValidatorFields\<close> returns at once unless
  errors are suppressed, and \<open>logError\<close> prints only when they are not.
\<close>

theorem mismatch_not_logged:
  "\<not> suppressErrors defaultOptions
   \<and> filter (\<lambda>key. \<not> list_ex (\<lambda>x. x = key) (keysOf mismatchedValidator ([], 0)))
        (controls (getRowValidator mismatchedValidator)) = [''years'']
   \<and> (case TableDataSource_new mismatchedValidator [(''A'', 1)] (Some ([], 0)) defaultOptions of
        Inl e \<Rightarrow> False | Inr s \<Rightarrow> console s = [])"
  by code_simp

section \<open>Windowed delivery\<close>

lemma slice2_pos:
  assumes "0 < a" "a < b"
  shows "slice2 xs a b = take (nat (b - a)) (drop (nat a) xs)"
proof (cases "a < int (length xs)")
  case True
  show ?thesis
  proof (cases "b \<le> int (length xs)")
    case True
    with assms \<open>a < int (length xs)\<close> show ?thesis
      by (simp add: slice2_def rel_index_def Let_def min_def nat_diff_distrib)
  next
    case False
    with assms \<open>a < int (length xs)\<close> show ?thesis
      by (simp add: slice2_def rel_index_def Let_def min_def nat_diff_distrib)
  qed
next
  case False
  with assms show ?thesis
    by (simp add: slice2_def rel_index_def Let_def min_def)
qed

lemma slice1_pos: "0 < a \<Longrightarrow> slice1 xs a = drop (nat a) xs"
  by (cases "a < int (length xs)") (simp_all add: slice1_def rel_index_def min_def)

text \<open>
  C6, as the code has it. When the reported start is positive, the view delivers the
  slice from start to end if the end lies after the start and the slice from start
  onwards otherwise; when the start is zero (or negative) it delivers the full sequence,
  whatever the end.
\<close>

theorem connect_map_window:
  "(0 < range_start rng \<and> range_start rng < range_end rng \<longrightarrow>
      connect_map rng data
        = take (nat (range_end rng - range_start rng)) (drop (nat (range_start rng)) data))
   \<and> (0 < range_start rng \<and> range_end rng \<le> range_start rng \<longrightarrow>
      connect_map rng data = drop (nat (range_start rng)) data)
   \<and> (range_start rng \<le> 0 \<longrightarrow> connect_map rng data = data)"
  by (simp add: connect_map_def slice2_pos slice1_pos)

theorem connect_map_window_witness:
  "connect_map \<lparr>range_start = 2, range_end = 5\<rparr> tenRows = [''r2'', ''r3'', ''r4'']
   \<and> connect_map \<lparr>range_start = 7, range_end = 3\<rparr> tenRows = [''r7'', ''r8'', ''r9'']
   \<and> connect_map initialRange tenRows = tenRows"
  using connect_map_window [of "\<lparr>range_start = 2, range_end = 5\<rparr>" tenRows]
    connect_map_window [of "\<lparr>range_start = 7, range_end = 3\<rparr>" tenRows]
    connect_map_window [of initialRange tenRows]
  by (simp add: tenRows_def initialRange_def)

text \<open>
  C6, as stated, fails for a range that starts at zero: for the range from 0 to 5 the
  view delivers all ten rows, not the five of the slice.
\<close>

theorem connect_map_zero_start_counterexample:
  "connect_map \<lparr>range_start = 0, range_end = 5\<rparr> tenRows = tenRows
   \<and> connect_map \<lparr>range_start = 0, range_end = 5\<rparr> tenRows
       \<noteq> [''r0'', ''r1'', ''r2'', ''r3'', ''r4'']"
  by (simp add: connect_map_def tenRows_def)

section \<open>Lemmas on the array operations\<close>

lemma findIndex_ge: "- 1 \<le> findIndex P xs"
  by (induction xs) (simp_all add: Let_def)

lemma findIndex_lt: "findIndex P xs < int (length xs)"
  by (induction xs) (simp_all add: Let_def)

lemma findIndex_neg: "(findIndex P xs < 0) = (\<forall>x \<in> set xs. \<not> P x)"
proof (induction xs)
  case Nil
  show ?case by simp
next
  case (Cons a xs)
  show ?case
  proof (cases "findIndex P xs < 0")
    case True
    with Cons show ?thesis by (simp add: Let_def)
  next
    case False
    then have "\<not> findIndex P xs + 1 < 0" by arith
    with False Cons show ?thesis by (simp add: Let_def)
  qed
qed

lemma findIndex_none: "(findIndex P xs = - 1) = (\<forall>x \<in> set xs. \<not> P x)"
proof -
  have "(findIndex P xs = - 1) = (findIndex P xs < 0)"
    using findIndex_ge [of P xs] by arith
  then show ?thesis by (simp only: findIndex_neg)
qed

lemma findIndex_found: "0 \<le> findIndex P xs \<Longrightarrow> P (xs ! nat (findIndex P xs))"
proof (induction xs)
  case Nil
  then show ?case by simp
next
  case (Cons x xs)
  show ?case
  proof (cases "P x")
    case True
    then show ?thesis by simp
  next
    case False
    with Cons.prems have nn: "0 \<le> findIndex P xs"
      by (simp add: Let_def split: if_splits)
    with Cons.IH have "P (xs ! nat (findIndex P xs))" by simp
    moreover from nn have "nat (findIndex P xs + 1) = Suc (nat (findIndex P xs))" by arith
    ultimately show ?thesis using False nn by (simp add: Let_def)
  qed
qed

lemma updateRowIds_loop_stop:
  "\<not> (index < int (length source) \<and> 0 \<le> index) \<Longrightarrow> updateRowIds_loop cfg index source h = h"
  by (subst updateRowIds_loop.simps) (simp only: if_False)

lemma splice_last: "xs \<noteq> [] \<Longrightarrow> splice_array xs (- 1) (Suc 0) [] = butlast xs"
  by (cases xs rule: rev_cases) (simp_all add: splice_array_def Let_def)

lemma splice_array_remove:
  "splice_array xs start n [] = take (rel_index (int (length xs)) start) xs
      @ drop (rel_index (int (length xs)) start + n) xs"
  by (simp add: splice_array_def rel_index_def Let_def)

lemma splice_array_insert:
  "splice_array xs start 0 ys = take (rel_index (int (length xs)) start) xs @ ys
      @ drop (rel_index (int (length xs)) start) xs"
  by (simp add: splice_array_def rel_index_def Let_def)

section \<open>Publications of an operation\<close>

lemma events_updateDatasourceFromRows:
  "events (updateDatasourceFromRows s rows)
     = events s @ [DatasourceNext (Extracted (extracted s)) (getDataFromRows (config s) (heap s) rows)]"
  by (simp add: updateDatasourceFromRows_def)

lemma rowsSubject_updateDatasourceFromRows [simp]:
  "rowsSubject (updateDatasourceFromRows s rows) = rowsSubject s"
  by (simp add: updateDatasourceFromRows_def)

lemma heap_updateDatasourceFromRows [simp]:
  "heap (updateDatasourceFromRows s rows) = heap s"
  by (simp add: updateDatasourceFromRows_def)

lemma config_updateDatasourceFromRows [simp]:
  "config (updateDatasourceFromRows s rows) = config s"
  by (simp add: updateDatasourceFromRows_def)



text \<open>
  C10. When no row of a sequence that is not empty has the id given, \<open>delete\<close> removes the
  last row of the sequence (the lookup yields \<open>-1\<close> and the removal starts there), leaves
  every row object as it was (no id is renumbered), emits the shortened sequence on the
  row channel and, unless the id is \<open>-1\<close>, the extracted records on the output channel.
\<close>

theorem delete_missing_id:
  assumes "i \<notin> set (rowIds s)" and "rowsSubject s \<noteq> []"
  shows "rowsSubject (delete s i) = butlast (rowsSubject s)
         \<and> heap (delete s i) = heap s
         \<and> (i \<noteq> - 1 \<longrightarrow>
              events (delete s i)
                = events s @ [RowsNext (butlast (rowsSubject s)),
                               DatasourceNext (Extracted (extracted s))
                                 (getDataFromRows (config s) (heap s) (butlast (rowsSubject s)))])
         \<and> (i = - 1 \<longrightarrow> events (delete s i) = events s @ [RowsNext (butlast (rowsSubject s))])"
proof -
  from assms(1) have idx: "getIndexFromRowId (heap s) i (rowsSubject s) = - 1"
    by (auto simp: getIndexFromRowId_def findIndex_none rowIds_def)
  have noloop: "updateRowIds (config s) (- 1) src (heap s) = heap s" for src
    by (simp add: updateRowIds_def updateRowIds_loop_stop)
  from assms(2) have sp: "splice_array (rowsSubject s) (- 1) (Suc 0) [] = butlast (rowsSubject s)"
    by (rule splice_last)
  define s1 where "s1 = s\<lparr>heap := heap s, rowsSubject := butlast (rowsSubject s),
    events := events s @ [RowsNext (butlast (rowsSubject s))]\<rparr>"
  have d: "delete s i = (if i \<noteq> - 1 then updateDatasourceFromRows s1 (butlast (rowsSubject s)) else s1)"
    unfolding delete_def Let_def idx noloop s1_def using sp by simp
  show ?thesis
    unfolding d by (simp add: s1_def events_updateDatasourceFromRows)
qed

text \<open>
  Witness for C10: no row of A, B, C has the id 7, and \<open>delete(7)\<close> drops the row C.
\<close>

theorem delete_missing_id_witness:
  "rowsSubject (delete (people defaultOptions) 7) = [0, 1]
   \<and> heap (delete (people defaultOptions) 7) = heap (people defaultOptions)
   \<and> events (delete (people defaultOptions) 7)
       = [RowsNext [0, 1], DatasourceNext (Extracted 0) [(''A'', 1), (''B'', 2)]]"
proof -
  have h1: "7 \<notin> set (rowIds (people defaultOptions))" by code_simp
  have h2: "rowsSubject (people defaultOptions) \<noteq> []" by code_simp
  have r: "rowsSubject (people defaultOptions) = [0, 1, 2]" by code_simp
  have e: "events (people defaultOptions) = []" by code_simp
  have x: "extracted (people defaultOptions) = 0" by code_simp
  have d: "getDataFromRows (config (people defaultOptions)) (heap (people defaultOptions)) [0, 1]
           = [(''A'', 1), (''B'', 2)]"
    by code_simp
  show ?thesis
    using delete_missing_id [OF h1 h2] by (simp add: r e x d del: One_nat_def)
qed

section \<open>The validity gate\<close>

text \<open>
  C3. When \<open>isValid\<close> of a row answers false, \<open>confirmCreate\<close> and \<open>confirmEdit\<close> return
  false and leave the whole state as it was: the row object (its editing flag, its data,
  its id), every other row, the row sequence and the emissions of both channels.
\<close>

theorem invalid_row_not_confirmed:
  assumes "\<not> fst (isValid (valid cs) (heap s ! row))"
  shows "confirmCreate cs s row = (False, s) \<and> confirmEdit cs s row = (False, s)"
proof -
  obtain v r0 where iv: "isValid (valid cs) (heap s ! row) = (v, r0)"
    by (cases "isValid (valid cs) (heap s ! row)")
  with assms have "\<not> v" by simp
  from iv isValid_row [of "valid cs" "heap s ! row"] have "r0 = heap s ! row" by simp
  then have "s\<lparr>heap := (heap s)[row := r0]\<rparr> = s" by simp
  with iv \<open>\<not> v\<close> show ?thesis
    by (simp add: confirmCreate_def confirmEdit_def Let_def)
qed

text \<open>
  Witness for C3: the pending row of the person list has an empty name, which the
  validator refuses.
\<close>

theorem invalid_row_not_confirmed_witness:
  "\<not> fst (isValid (valid personValidator) (heap (withPending personValidator defaultOptions) ! 3))
   \<and> confirmCreate personValidator (withPending personValidator defaultOptions) 3
       = (False, withPending personValidator defaultOptions)
   \<and> confirmEdit personValidator (withPending personValidator defaultOptions) 3
       = (False, withPending personValidator defaultOptions)"
proof -
  have h: "\<not> fst (isValid (valid personValidator)
                   (heap (withPending personValidator defaultOptions) ! 3))"
    by code_simp
  show ?thesis
    using h invalid_row_not_confirmed [OF h] by simp
qed

section \<open>Replacing the records\<close>

text \<open>
  The rows \<open>getRowsFromData\<close> builds, written out: one new row object for each record, with
  the id of its index in the numbering of the mode, no original data, and the fresh
  handle of the validator service, disabled (the row is not being edited) and patched
  with the record.
\<close>

lemma createTableElement_not_editing:
  "createTableElement pv i False d fg
     = \<lparr>row_id = i, originalData = None,
        validator = fg\<lparr>disabled := True, rawValue := pv (rawValue fg) d\<rparr>\<rparr>"
  by (simp add: createTableElement_def TableElementReactiveForms_new_def currentData_set_def
      editing_set_def patchValue_def disable_def)

lemma map_zip_upt:
  "map (\<lambda>(d, k). f d k) (zip xs [0 ..< length xs]) = map (\<lambda>k. f (xs ! k) k) [0 ..< length xs]"
  by (rule nth_equalityI) simp_all

lemma getRowsFromData_rows:
  "getRowsFromData cs cfg h data
     = (h @ map (\<lambda>k. \<lparr>row_id = getRowIdFromIndex cfg (int k) (int (length data)),
                       originalData = None,
                       validator = (getRowValidator cs)
                         \<lparr>disabled := True,
                          rawValue := patchControls cs (rawValue (getRowValidator cs)) (data ! k)\<rparr>\<rparr>)
              [0 ..< length data],
        [length h ..< length h + length data])"
proof -
  have "map (\<lambda>(d, index).
               createTableElement (patchControls cs)
                 (getRowIdFromIndex cfg (int index) (int (length data))) False d (getRowValidator cs))
          (zip data [0 ..< length data])
        = map (\<lambda>k. createTableElement (patchControls cs)
                 (getRowIdFromIndex cfg (int k) (int (length data))) False (data ! k)
                 (getRowValidator cs))
            [0 ..< length data]"
    by (rule map_zip_upt)
  then show ?thesis
    by (simp add: getRowsFromData_def createTableElement_not_editing)
qed

text \<open>
  C5, as the code has it. A second call of \<open>updateDatasource\<close> with the reference of the
  first changes nothing and emits nothing, whatever the contents and the options are, and
  after a call the reference is the one held. The first call, for a reference that is
  not the one held, changes the state in exactly this: the store gains the rows built
  from the records, the row sequence is these new rows, the reference is held, and the
  row channel emits the new sequence once, followed by the records on the output channel
  if asked to; this depends on the reference only, so a new array with the same contents
  is rebuilt again. For the reference that is held, the first call is no operation
  either.
\<close>

theorem updateDatasource_new_reference:
  "updateDatasource cs (updateDatasource cs s ref data e1) ref data2 e2
     = updateDatasource cs s ref data e1
   \<and> currentData (updateDatasource cs s ref data e1) = Some ref
   \<and> (currentData s \<noteq> Some ref \<longrightarrow>
        updateDatasource cs s ref data e1
          = s\<lparr>heap := heap s
                  @ map (\<lambda>k. \<lparr>row_id = getRowIdFromIndex (config s) (int k) (int (length data)),
                               originalData = None,
                               validator = (getRowValidator cs)
                                 \<lparr>disabled := True,
                                  rawValue := patchControls cs (rawValue (getRowValidator cs))
                                                (data ! k)\<rparr>\<rparr>)
                      [0 ..< length data],
              rowsSubject := [length (heap s) ..< length (heap s) + length data],
              currentData := Some ref,
              events := events s
                  @ [RowsNext [length (heap s) ..< length (heap s) + length data]]
                  @ (if e1 then [DatasourceNext ref data] else [])\<rparr>)
   \<and> (currentData s = Some ref \<longrightarrow> updateDatasource cs s ref data e1 = s)"
proof -
  define s1 where "s1 = updateDatasource cs s ref data e1"
  have cur: "currentData s1 = Some ref"
    by (simp add: s1_def updateDatasource_def Let_def split: prod.splits)
  have again: "updateDatasource cs s1 ref data2 e2 = s1"
    using cur by (simp add: updateDatasource_def)
  have first: "s1 = s\<lparr>heap := heap s
                  @ map (\<lambda>k. \<lparr>row_id = getRowIdFromIndex (config s) (int k) (int (length data)),
                               originalData = None,
                               validator = (getRowValidator cs)
                                 \<lparr>disabled := True,
                                  rawValue := patchControls cs (rawValue (getRowValidator cs))
                                                (data ! k)\<rparr>\<rparr>)
                      [0 ..< length data],
              rowsSubject := [length (heap s) ..< length (heap s) + length data],
              currentData := Some ref,
              events := events s
                  @ [RowsNext [length (heap s) ..< length (heap s) + length data]]
                  @ (if e1 then [DatasourceNext ref data] else [])\<rparr>"
    if "currentData s \<noteq> Some ref"
    using that by (simp add: s1_def updateDatasource_def Let_def getRowsFromData_rows)
  have held: "s1 = s" if "currentData s = Some ref"
    using that by (simp add: s1_def updateDatasource_def)
  show ?thesis
    using again first held cur unfolding s1_def by blast
qed

text \<open>
  Witness for C5: in prepend mode, two calls with the array \<open>Supplied 0\<close> of the records X
  and Y emit one row sequence and one record collection; the two new rows have the ids 1
  and 0, are not being edited and hold X and Y; a call with the array \<open>Supplied 1\<close> of the
  same contents emits again.
\<close>

theorem updateDatasource_new_reference_witness:
  "events (updateDatasource acceptAll
             (updateDatasource acceptAll (people prependOptions) (Supplied 0)
                [(''X'', 9), (''Y'', 8)] True)
             (Supplied 0) [(''X'', 9), (''Y'', 8)] True)
     = [RowsNext [3, 4], DatasourceNext (Supplied 0) [(''X'', 9), (''Y'', 8)]]
   \<and> map (\<lambda>row. (row_id row, editing_get row, currentData_get row, originalData row))
        (drop 3 (heap (updateDatasource acceptAll (people prependOptions) (Supplied 0)
                         [(''X'', 9), (''Y'', 8)] True)))
       = [(1, False, (''X'', 9), None), (0, False, (''Y'', 8), None)]
   \<and> rowsSubject (updateDatasource acceptAll (people prependOptions) (Supplied 0)
                     [(''X'', 9), (''Y'', 8)] True) = [3, 4]
   \<and> events (updateDatasource acceptAll
             (updateDatasource acceptAll (people prependOptions) (Supplied 0)
                [(''X'', 9), (''Y'', 8)] True)
             (Supplied 1) [(''X'', 9), (''Y'', 8)] True)
     = [RowsNext [3, 4], DatasourceNext (Supplied 0) [(''X'', 9), (''Y'', 8)],
        RowsNext [5, 6], DatasourceNext (Supplied 1) [(''X'', 9), (''Y'', 8)]]"
proof -
  let ?d = "[(''X'', 9), (''Y'', 8)] :: person list"
  let ?s1 = "updateDatasource acceptAll (people prependOptions) (Supplied 0) ?d True"
  have c0: "currentData (people prependOptions) \<noteq> Some (Supplied 0)" by code_simp
  have h0: "length (heap (people prependOptions)) = 3" by code_simp
  have e0: "events (people prependOptions) = []" by code_simp
  have g0: "config (people prependOptions) = prependOptions" by code_simp
  note first = updateDatasource_new_reference
    [of acceptAll "people prependOptions" "Supplied 0" ?d True ?d True]
  from first have again: "updateDatasource acceptAll ?s1 (Supplied 0) ?d True = ?s1"
    and c1: "currentData ?s1 = Some (Supplied 0)"
    by blast+
  from first c0 have ev1: "events ?s1 = [RowsNext [3, 4], DatasourceNext (Supplied 0) ?d]"
    by (simp add: h0 e0)
  from first c0 have rows1: "rowsSubject ?s1 = [3, 4]"
    by (simp add: h0)
  have r0: "getRowIdFromIndex prependOptions 0 2 = 1" and r1: "getRowIdFromIndex prependOptions 1 2 = 0"
    by (simp_all add: getRowIdFromIndex_def prependOptions_def)
  have v: "getRowValidator acceptAll
             = \<lparr>disabled = False, rawValue = ([], 0), controls = [''name'', ''age'']\<rparr>"
    and pc: "patchControls acceptAll = (\<lambda>old data. data)"
    by (simp_all add: acceptAll_def personValidator_def)
  from first c0 have heap1:
    "map (\<lambda>row. (row_id row, editing_get row, currentData_get row, originalData row))
       (drop 3 (heap ?s1))
     = [(1, False, (''X'', 9), None), (0, False, (''Y'', 8), None)]"
    by (simp add: h0 g0 r0 r1 v pc editing_get_def enabled_def currentData_get_def getRawValue_def)
  from first c0 have h1: "length (heap ?s1) = 5"
    by (simp add: h0)
  note fresh = updateDatasource_new_reference [of acceptAll ?s1 "Supplied 1" ?d True]
  from c1 have "currentData ?s1 \<noteq> Some (Supplied 1)" by simp
  with fresh have "events (updateDatasource acceptAll ?s1 (Supplied 1) ?d True)
      = events ?s1 @ [RowsNext [5 ..< 7], DatasourceNext (Supplied 1) ?d]"
    by (simp add: h1)
  then have ev2: "events (updateDatasource acceptAll ?s1 (Supplied 1) ?d True)
      = [RowsNext [3, 4], DatasourceNext (Supplied 0) ?d,
         RowsNext [5, 6], DatasourceNext (Supplied 1) ?d]"
    by (simp add: ev1)
  show ?thesis
    by (simp only: again ev1 rows1 heap1 ev2 simp_thms)
qed

text \<open>
  C5, as stated, fails for the reference that is held: \<open>delete(1)\<close> emits the array
  \<open>Extracted 0\<close> on the output channel and holds it, and two calls of \<open>updateDatasource\<close>
  with this array rebuild nothing and emit nothing.
\<close>

theorem updateDatasource_held_reference_counterexample:
  "run acceptAll (people defaultOptions) [Delete 1] = Some (delete (people defaultOptions) 1)
   \<and> events (delete (people defaultOptions) 1)
       = [RowsNext [0, 2], DatasourceNext (Extracted 0) [(''A'', 1), (''C'', 3)]]
   \<and> currentData (delete (people defaultOptions) 1) = Some (Extracted 0)
   \<and> updateDatasource acceptAll
         (updateDatasource acceptAll (delete (people defaultOptions) 1)
            (Extracted 0) [(''A'', 1), (''C'', 3)] True)
         (Extracted 0) [(''A'', 1), (''C'', 3)] True
       = delete (people defaultOptions) 1
   \<and> events (updateDatasource acceptAll
         (updateDatasource acceptAll (delete (people defaultOptions) 1)
            (Extracted 0) [(''A'', 1), (''C'', 3)] True)
         (Extracted 0) [(''A'', 1), (''C'', 3)] True)
       = events (delete (people defaultOptions) 1)"
  by code_simp

section \<open>The position of a new row\<close>

text \<open>
  Where \<open>createNew\<close> puts the pending row when there is none yet: at the index given,
  for an index from 1 to the length of the sequence; at the front or at the end, after
  the mode, when no index is given.
\<close>

lemma createNew_at_index:
  assumes "\<not> existsNewElement (heap s) (rowsSubject s)"
    and "0 < i" and "i \<le> int (length (rowsSubject s))"
  shows "rowsSubject (createNew cs s (Some i))
           = take (nat i) (rowsSubject s) @ [length (heap s)] @ drop (nat i) (rowsSubject s)"
    and "rowsSubject (createNew cs s (Some i)) ! nat i = length (heap s)"
proof -
  from assms(2,3) have k: "rel_index (int (length (rowsSubject s))) i = nat i"
    by (simp add: rel_index_def min_def)
  from assms(1,2) show rows: "rowsSubject (createNew cs s (Some i))
           = take (nat i) (rowsSubject s) @ [length (heap s)] @ drop (nat i) (rowsSubject s)"
    by (simp add: createNew_def Let_def splice_array_insert k)
  from assms(3) have "length (take (nat i) (rowsSubject s)) = nat i" by simp
  then show "rowsSubject (createNew cs s (Some i)) ! nat i = length (heap s)"
    unfolding rows using nth_append_length [of "take (nat i) (rowsSubject s)" "length (heap s)"
        "drop (nat i) (rowsSubject s)"]
    by simp
qed

lemma createNew_absent:
  assumes "\<not> existsNewElement (heap s) (rowsSubject s)"
  shows "rowsSubject (createNew cs s None)
           = (if prependNewElements (config s) then length (heap s) # rowsSubject s
              else rowsSubject s @ [length (heap s)])"
  using assms by (simp add: createNew_def Let_def)

text \<open>
  C9. In append mode \<open>createNew(0)\<close> does not insert the pending row at index 0: the test
  \<open>if (insertAt)\<close> fails for 0, and the row is appended as if no position were given.
\<close>

theorem createNew_at_zero_appends:
  "rowIds (people defaultOptions) = [0, 1, 2]
   \<and> rowIds (createNew acceptAll (people defaultOptions) (Some 0)) = [0, 1, 2, -1]
   \<and> rowIds (createNew acceptAll (people defaultOptions) (Some 0)) \<noteq> [-1, 0, 1, 2]
   \<and> createNew acceptAll (people defaultOptions) (Some 0)
       = createNew acceptAll (people defaultOptions) None"
  by code_simp

section \<open>Row identities\<close>

text \<open>
  C1. The ids of the committed rows are not always the numbering of the mode. In prepend
  mode, deleting the last row of A, B, C (ids 2, 1, 0) renumbers nothing, and moving the
  first row down renumbers the row at index 0 only; in append mode, confirming a row
  created at index 1 gives it the id of the last position.
\<close>

theorem ids_not_renumbered:
  "rowIds (people prependOptions) = [2, 1, 0]
   \<and> idsConsistent (people prependOptions)
   \<and> rowIds (delete (people prependOptions) 0) = [2, 1]
   \<and> \<not> idsConsistent (delete (people prependOptions) 0)
   \<and> rowIds (move (people prependOptions) 2 1) = [2, 2, 0]
   \<and> \<not> idsConsistent (move (people prependOptions) 2 1)
   \<and> map_option rowIds (run acceptAll (people defaultOptions) [CreateNew (Some 1), ConfirmCreate 3])
       = Some [0, 3, 1, 2]
   \<and> map_option idsConsistent
        (run acceptAll (people defaultOptions) [CreateNew (Some 1), ConfirmCreate 3]) = Some False"
  by code_simp

section \<open>At most one pending row\<close>

lemma pendingCount_pending: "pendingCount s = pending (heap s) (rowsSubject s)"
  by (simp add: pendingCount_def rowIds_def pending_def filter_map comp_def)

lemma pending_append: "pending h (xs @ ys) = pending h xs + pending h ys"
  by (simp add: pending_def)

lemma pending_mono_heap:
  "(\<And>a. a \<in> set rows \<Longrightarrow> row_id (h' ! a) = - 1 \<Longrightarrow> row_id (h ! a) = - 1)
     \<Longrightarrow> pending h' rows \<le> pending h rows"
proof (induction rows)
  case Nil
  show ?case by (simp add: pending_def)
next
  case (Cons a rows)
  have "pending h' rows \<le> pending h rows"
    by (rule Cons.IH) (simp add: Cons.prems)
  moreover have "row_id (h' ! a) = - 1 \<Longrightarrow> row_id (h ! a) = - 1"
    by (rule Cons.prems) simp_all
  ultimately show ?case by (auto simp: pending_def)
qed

lemma pending_zero: "(pending h rows = 0) = (\<forall>a \<in> set rows. row_id (h ! a) \<noteq> - 1)"
  by (simp add: pending_def filter_empty_conv)

lemma getRowIdFromIndex_nonneg:
  "0 \<le> index \<Longrightarrow> index < count \<Longrightarrow> 0 \<le> getRowIdFromIndex cfg index count"
  by (simp add: getRowIdFromIndex_def)

lemma updateRowIds_loop_length:
  "length (updateRowIds_loop cfg index source h) = length h"
proof (induction cfg index source h rule: updateRowIds_loop.induct)
  case (1 cfg index source h)
  show ?case
  proof (cases "index < int (length source) \<and> 0 \<le> index")
    case True
    then show ?thesis
      by (subst updateRowIds_loop.simps) (simp add: "1.IH")
  next
    case False
    then show ?thesis by (simp add: updateRowIds_loop_stop)
  qed
qed

lemma updateRowIds_loop_pending:
  "(row_id (updateRowIds_loop cfg index source h ! a) = - 1) = (row_id (h ! a) = - 1)"
proof (induction cfg index source h rule: updateRowIds_loop.induct)
  case (1 cfg index source h)
  show ?case
  proof (cases "index < int (length source) \<and> 0 \<le> index")
    case True
    define x where "x = source ! nat index"
    define g where "g = getRowIdFromIndex cfg index (int (length source))"
    define h' where "h' = (if row_id (h ! x) \<noteq> - 1 then h[x := (h ! x)\<lparr>row_id := g\<rparr>] else h)"
    from True have "0 \<le> g"
      unfolding g_def by (simp add: getRowIdFromIndex_nonneg)
    then have same: "(row_id (h' ! a) = - 1) = (row_id (h ! a) = - 1)"
      unfolding h'_def by (cases "a = x"; cases "x < length h") (auto simp: list_update_beyond)
    have "updateRowIds_loop cfg index source h
            = updateRowIds_loop cfg (index + (if prependNewElements cfg then - 1 else 1)) source h'"
      using True unfolding h'_def x_def g_def
      by (subst updateRowIds_loop.simps) simp
    moreover have "(row_id (updateRowIds_loop cfg
                       (index + (if prependNewElements cfg then - 1 else 1)) source h' ! a) = - 1)
                   = (row_id (h' ! a) = - 1)"
      using "1.IH" [OF True] unfolding h'_def x_def g_def .
    ultimately show ?thesis using same by simp
  next
    case False
    then show ?thesis by (simp add: updateRowIds_loop_stop)
  qed
qed

lemma pending_updateRowIds:
  "pending (updateRowIds cfg index source h) rows = pending h rows"
  by (simp add: pending_def updateRowIds_def updateRowIds_loop_pending)

lemma pending_take_drop: "pending h (take k xs @ drop (k + n) xs) \<le> pending h xs"
proof -
  have "take n (drop k xs) @ drop n (drop k xs) = drop k xs"
    by (rule append_take_drop_id)
  then have "pending h (drop k xs) = pending h (take n (drop k xs)) + pending h (drop n (drop k xs))"
    by (simp only: pending_append [symmetric])
  moreover have "drop n (drop k xs) = drop (k + n) xs"
    by (simp add: add.commute)
  moreover have "pending h xs = pending h (take k xs) + pending h (drop k xs)"
    by (simp only: pending_append [symmetric] append_take_drop_id)
  ultimately show ?thesis by (simp add: pending_append)
qed

lemma pending_splice_remove: "pending h (splice_array xs start n []) \<le> pending h xs"
  by (simp add: splice_array_remove pending_take_drop)

lemma set_splice_remove: "set (splice_array xs start n []) \<subseteq> set xs"
proof -
  have "set (take k xs) \<subseteq> set xs" and "set (drop j xs) \<subseteq> set xs" for k j
    by (rule set_take_subset, rule set_drop_subset)
  then show ?thesis by (simp add: splice_array_remove)
qed

lemma moveItemInArray_cases:
  "moveItemInArray xs i j = xs
   \<or> (\<exists>k m. k < length xs
         \<and> moveItemInArray xs i j
            = take m (take k xs @ drop (Suc k) xs) @ [xs ! k]
                @ drop m (take k xs @ drop (Suc k) xs))"
proof -
  define k where "k = nat (clamp i (int (length xs) - 1))"
  define m where "m = nat (clamp j (int (length xs) - 1))"
  have mv: "moveItemInArray xs i j
              = (if k = m then xs
                 else take m (take k xs @ drop (Suc k) xs) @ [xs ! k]
                        @ drop m (take k xs @ drop (Suc k) xs))"
    unfolding moveItemInArray_def Let_def k_def m_def ..
  show ?thesis
  proof (cases "k = m")
    case True
    with mv show ?thesis by (simp only: if_True simp_thms)
  next
    case False
    have "k < length xs"
    proof (cases "xs = []")
      case True
      then have "k = 0" and "m = 0" by (simp_all add: k_def m_def clamp_def)
      with False show ?thesis by simp
    next
      case ne: False
      then have "0 < int (length xs)" by simp
      then show ?thesis unfolding k_def clamp_def by arith
    qed
    moreover from mv False have "moveItemInArray xs i j
        = take m (take k xs @ drop (Suc k) xs) @ [xs ! k] @ drop m (take k xs @ drop (Suc k) xs)"
      by (simp only: if_False)
    ultimately show ?thesis by blast
  qed
qed

lemma pending_insert: "pending h (as @ [x] @ bs) = pending h (as @ bs) + pending h [x]"
  by (simp add: pending_def)

lemma moved_parts:
  assumes "k < length xs"
  defines "rest \<equiv> take k xs @ drop (Suc k) xs"
  shows "pending h (take m rest @ [xs ! k] @ drop m rest) = pending h xs"
    and "set (take m rest @ [xs ! k] @ drop m rest) = set xs"
proof -
  have xs: "take k xs @ [xs ! k] @ drop (Suc k) xs = xs"
    using assms(1) by (simp add: id_take_nth_drop [symmetric])
  have "pending h (take m rest @ [xs ! k] @ drop m rest)
          = pending h (take m rest @ drop m rest) + pending h [xs ! k]"
    by (rule pending_insert)
  also have "\<dots> = pending h rest + pending h [xs ! k]"
    by (simp only: append_take_drop_id)
  also have "\<dots> = pending h (take k xs @ [xs ! k] @ drop (Suc k) xs)"
    unfolding rest_def by (rule pending_insert [symmetric])
  also have "\<dots> = pending h xs"
    by (simp only: xs)
  finally show "pending h (take m rest @ [xs ! k] @ drop m rest) = pending h xs" .
  have "set (take m rest @ [xs ! k] @ drop m rest) = insert (xs ! k) (set (take m rest @ drop m rest))"
    by (simp only: set_append list.set) blast
  also have "\<dots> = insert (xs ! k) (set rest)"
    by (simp only: append_take_drop_id)
  also have "\<dots> = set (take k xs @ [xs ! k] @ drop (Suc k) xs)"
    unfolding rest_def by (simp only: set_append list.set) blast
  also have "\<dots> = set xs"
    by (simp only: xs)
  finally show "set (take m rest @ [xs ! k] @ drop m rest) = set xs" .
qed

lemma pending_move: "pending h (moveItemInArray xs i j) = pending h xs"
proof -
  from moveItemInArray_cases [of xs i j] consider
    (same) "moveItemInArray xs i j = xs"
  | (moved) k m where "k < length xs"
      "moveItemInArray xs i j
         = take m (take k xs @ drop (Suc k) xs) @ [xs ! k] @ drop m (take k xs @ drop (Suc k) xs)"
    by blast
  then show ?thesis
  proof cases
    case same
    then show ?thesis by simp
  next
    case moved
    show ?thesis
      unfolding moved(2) by (rule moved_parts(1) [OF moved(1)])
  qed
qed

lemma set_move: "set (moveItemInArray xs i j) = set (xs :: nat list)"
proof -
  from moveItemInArray_cases [of xs i j] consider
    (same) "moveItemInArray xs i j = xs"
  | (moved) k m where "k < length xs"
      "moveItemInArray xs i j
         = take m (take k xs @ drop (Suc k) xs) @ [xs ! k] @ drop m (take k xs @ drop (Suc k) xs)"
    by blast
  then show ?thesis
  proof cases
    case same
    then show ?thesis by simp
  next
    case moved
    show ?thesis
      unfolding moved(2) by (rule moved_parts(2) [OF moved(1)])
  qed
qed

lemma row_id_createTableElement [simp]: "row_id (createTableElement pv i ed data fg) = i"
  by (simp add: createTableElement_def TableElementReactiveForms_new_def currentData_set_def
      editing_set_def)

lemma row_id_editing_set [simp]: "row_id (editing_set row v) = row_id row"
  by (simp add: editing_set_def)

lemma existsNewElement_pending: "existsNewElement h source = (0 < pending h source)"
proof -
  have "(getNewRowIndex h source > - 1) = (\<not> (\<forall>a \<in> set source. row_id (h ! a) \<noteq> - 1))"
    using findIndex_ge [of "\<lambda>element. row_id (h ! element) = - 1" source]
      findIndex_none [of "\<lambda>element. row_id (h ! element) = - 1" source]
    unfolding getNewRowIndex_def getIndexFromRowId_def by auto
  moreover have "(0 < pending h source) = (\<not> (\<forall>a \<in> set source. row_id (h ! a) \<noteq> - 1))"
    using pending_zero [of h source] by auto
  moreover have "\<not> (\<forall>a \<in> set source. row_id (h ! a) \<noteq> - 1) \<Longrightarrow> 0 < length source"
    by auto
  ultimately show ?thesis unfolding existsNewElement_def by blast
qed

lemma pending_cong:
  "(\<And>a. a \<in> set rows \<Longrightarrow> (row_id (h' ! a) = - 1) = (row_id (h ! a) = - 1))
     \<Longrightarrow> pending h' rows = pending h rows"
  unfolding pending_def by (rule arg_cong [where f = length], rule filter_cong) simp_all

lemma createNew_noop:
  "existsNewElement (heap s) (rowsSubject s) \<Longrightarrow> createNew cs s insertAt = s"
  by (simp add: createNew_def Let_def)

lemma createNew_shape:
  assumes "\<not> existsNewElement (heap s) (rowsSubject s)"
  shows "\<exists>as bs. as @ bs = rowsSubject s
           \<and> rowsSubject (createNew cs s insertAt) = as @ [length (heap s)] @ bs
           \<and> heap (createNew cs s insertAt)
               = heap s @ [createTableElement (patchControls cs) (- 1) True (createNewObject cs s)
                             (getRowValidator cs)]"
proof -
  let ?n = "length (heap s)"
  let ?h = "heap s @ [createTableElement (patchControls cs) (- 1) True (createNewObject cs s)
                        (getRowValidator cs)]"
  have hp: "heap (createNew cs s insertAt) = ?h"
    using assms by (simp add: createNew_def Let_def)
  consider (explicit) "insertAt \<noteq> None \<and> the insertAt \<noteq> 0"
    | (front) "\<not> (insertAt \<noteq> None \<and> the insertAt \<noteq> 0)" "prependNewElements (config s)"
    | (atEnd) "\<not> (insertAt \<noteq> None \<and> the insertAt \<noteq> 0)" "\<not> prependNewElements (config s)"
    by blast
  then show ?thesis
  proof cases
    case explicit
    define k where "k = rel_index (int (length (rowsSubject s))) (the insertAt)"
    have "rowsSubject (createNew cs s insertAt) = take k (rowsSubject s) @ [?n] @ drop k (rowsSubject s)"
      using assms explicit by (simp add: createNew_def Let_def splice_array_insert k_def)
    moreover have "take k (rowsSubject s) @ drop k (rowsSubject s) = rowsSubject s"
      by (rule append_take_drop_id)
    ultimately show ?thesis using hp by blast
  next
    case front
    then have "rowsSubject (createNew cs s insertAt) = [] @ [?n] @ rowsSubject s"
      using assms by (auto simp: createNew_def Let_def)
    moreover have "[] @ rowsSubject s = rowsSubject s" by simp
    ultimately show ?thesis using hp by blast
  next
    case atEnd
    then have "rowsSubject (createNew cs s insertAt) = rowsSubject s @ [?n] @ []"
      using assms by (auto simp: createNew_def Let_def)
    moreover have "rowsSubject s @ [] = rowsSubject s" by simp
    ultimately show ?thesis using hp by blast
  qed
qed

lemma createNew_inv:
  assumes wf: "wellFormed s" and p: "pending (heap s) (rowsSubject s) \<le> 1"
  shows "wellFormed (createNew cs s insertAt)
         \<and> pending (heap (createNew cs s insertAt)) (rowsSubject (createNew cs s insertAt)) \<le> 1"
proof (cases "existsNewElement (heap s) (rowsSubject s)")
  case True
  then have "createNew cs s insertAt = s" by (rule createNew_noop)
  with wf p show ?thesis by simp
next
  case False
  let ?new = "createTableElement (patchControls cs) (- 1) True (createNewObject cs s)
                (getRowValidator cs)"
  from createNew_shape [OF False, of cs insertAt] obtain as bs where
    ab: "as @ bs = rowsSubject s"
    and rows: "rowsSubject (createNew cs s insertAt) = as @ [length (heap s)] @ bs"
    and hp: "heap (createNew cs s insertAt) = heap s @ [?new]"
    by blast
  from False have zero: "pending (heap s) (rowsSubject s) = 0"
    by (simp add: existsNewElement_pending)
  have old: "(heap s @ [?new]) ! a = heap s ! a" if "a \<in> set (rowsSubject s)" for a
    using that wf by (simp add: wellFormed_def nth_append)
  have "pending (heap s @ [?new]) (as @ bs) = pending (heap s) (as @ bs)"
    by (rule pending_cong) (simp add: old ab)
  with zero ab have z: "pending (heap s @ [?new]) (as @ bs) = 0" by simp
  have one: "pending (heap s @ [?new]) [length (heap s)] = 1"
    by (simp add: pending_def)
  have "pending (heap s @ [?new]) (as @ [length (heap s)] @ bs) = 1"
    unfolding pending_insert z one by simp
  moreover have "wellFormed (createNew cs s insertAt)"
  proof -
    have "set (as @ [length (heap s)] @ bs) = insert (length (heap s)) (set (as @ bs))"
      by auto
    with ab wf show ?thesis
      unfolding wellFormed_def rows hp by auto
  qed
  ultimately show ?thesis by (simp add: rows hp)
qed

lemma confirmCreate_result:
  "snd (confirmCreate cs s row) = s
   \<or> (\<exists>r. row_id r = int (length (rowsSubject s)) - 1
          \<and> heap (snd (confirmCreate cs s row)) = (heap s)[row := r]
          \<and> rowsSubject (snd (confirmCreate cs s row)) = rowsSubject s)"
proof -
  obtain v r0 where iv: "isValid (valid cs) (heap s ! row) = (v, r0)"
    by (cases "isValid (valid cs) (heap s ! row)")
  from iv isValid_row [of "valid cs" "heap s ! row"] have r0: "r0 = heap s ! row" by simp
  then have s0: "s\<lparr>heap := (heap s)[row := r0]\<rparr> = s" by simp
  show ?thesis
  proof (cases v)
    case False
    with iv s0 show ?thesis by (simp add: confirmCreate_def Let_def)
  next
    case True
    define r1 where "r1 = r0\<lparr>row_id := int (length (rowsSubject s)) - 1\<rparr>"
    define r2 where "r2 = (if keepOriginalDataAfterConfirm (config s)
                           then r1\<lparr>originalData := Some (currentData_get r1)\<rparr> else r1)"
    have id: "row_id (editing_set r2 False) = int (length (rowsSubject s)) - 1"
      by (simp add: r2_def r1_def)
    have "heap (snd (confirmCreate cs s row)) = (heap s)[row := editing_set r2 False]"
      using iv True s0 by (simp add: confirmCreate_def Let_def r2_def r1_def)
    moreover have "rowsSubject (snd (confirmCreate cs s row)) = rowsSubject s"
      using iv True s0 by (simp add: confirmCreate_def Let_def)
    ultimately show ?thesis using id by blast
  qed
qed

lemma confirmCreate_inv:
  assumes wf: "wellFormed s" and p: "pending (heap s) (rowsSubject s) \<le> 1"
  shows "wellFormed (snd (confirmCreate cs s row))
         \<and> pending (heap (snd (confirmCreate cs s row))) (rowsSubject (snd (confirmCreate cs s row))) \<le> 1"
proof -
  from confirmCreate_result [of cs s row] consider
    (same) "snd (confirmCreate cs s row) = s"
  | (confirmed) r where "row_id r = int (length (rowsSubject s)) - 1"
      "heap (snd (confirmCreate cs s row)) = (heap s)[row := r]"
      "rowsSubject (snd (confirmCreate cs s row)) = rowsSubject s"
    by blast
  then show ?thesis
  proof cases
    case same
    with wf p show ?thesis by simp
  next
    case confirmed
    have "pending ((heap s)[row := r]) (rowsSubject s) \<le> pending (heap s) (rowsSubject s)"
    proof (rule pending_mono_heap)
      fix a
      assume a: "a \<in> set (rowsSubject s)" and m: "row_id ((heap s)[row := r] ! a) = - 1"
      from a have "0 < length (rowsSubject s)" by (cases "rowsSubject s") auto
      with confirmed(1) have "row_id r \<noteq> - 1" by simp
      with m show "row_id (heap s ! a) = - 1"
        by (cases "a = row"; cases "row < length (heap s)") (auto simp: list_update_beyond)
    qed
    with p have "pending ((heap s)[row := r]) (rowsSubject s) \<le> 1" by simp
    moreover from wf have "wellFormed (snd (confirmCreate cs s row))"
      unfolding wellFormed_def confirmed(2) confirmed(3) by simp
    ultimately show ?thesis by (simp add: confirmed(2) confirmed(3))
  qed
qed

lemma confirmEdit_result:
  "snd (confirmEdit cs s row) = s
   \<or> (\<exists>r. row_id r = row_id (heap s ! row)
          \<and> heap (snd (confirmEdit cs s row)) = (heap s)[row := r]
          \<and> rowsSubject (snd (confirmEdit cs s row))
              = (if 0 \<le> getIndexFromRowId (heap s) (row_id (heap s ! row)) (rowsSubject s)
                 then (rowsSubject s)
                        [nat (getIndexFromRowId (heap s) (row_id (heap s ! row)) (rowsSubject s)) := row]
                 else rowsSubject s))"
proof -
  obtain v r0 where iv: "isValid (valid cs) (heap s ! row) = (v, r0)"
    by (cases "isValid (valid cs) (heap s ! row)")
  from iv isValid_row [of "valid cs" "heap s ! row"] have r0: "r0 = heap s ! row" by simp
  then have s0: "s\<lparr>heap := (heap s)[row := r0]\<rparr> = s" by simp
  show ?thesis
  proof (cases v)
    case False
    with iv s0 show ?thesis by (simp add: confirmEdit_def Let_def)
  next
    case True
    define r1 where "r1 = (if \<not> keepOriginalDataAfterConfirm (config s)
                           then r0\<lparr>originalData := None\<rparr> else r0)"
    have id: "row_id (editing_set r1 False) = row_id (heap s ! row)"
      by (simp add: r1_def r0)
    have "heap (snd (confirmEdit cs s row)) = (heap s)[row := editing_set r1 False]"
      using iv True s0 by (simp add: confirmEdit_def Let_def r1_def)
    moreover have "rowsSubject (snd (confirmEdit cs s row))
              = (if 0 \<le> getIndexFromRowId (heap s) (row_id (heap s ! row)) (rowsSubject s)
                 then (rowsSubject s)
                        [nat (getIndexFromRowId (heap s) (row_id (heap s ! row)) (rowsSubject s)) := row]
                 else rowsSubject s)"
      using iv True s0 r0 by (simp add: confirmEdit_def Let_def)
    ultimately show ?thesis using id by blast
  qed
qed

lemma pending_map: "pending h rows = length (filter (\<lambda>i. i = - 1) (map (\<lambda>a. row_id (h ! a)) rows))"
  by (simp add: pending_def filter_map comp_def)

lemma confirmEdit_inv:
  assumes wf: "wellFormed s" and p: "pending (heap s) (rowsSubject s) \<le> 1"
    and row: "row < length (heap s)"
  shows "wellFormed (snd (confirmEdit cs s row))
         \<and> pending (heap (snd (confirmEdit cs s row))) (rowsSubject (snd (confirmEdit cs s row))) \<le> 1"
proof -
  define idx where "idx = getIndexFromRowId (heap s) (row_id (heap s ! row)) (rowsSubject s)"
  define rows' where "rows' = (if 0 \<le> idx then (rowsSubject s)[nat idx := row] else rowsSubject s)"
  from confirmEdit_result [of cs s row] consider
    (same) "snd (confirmEdit cs s row) = s"
  | (confirmed) r where "row_id r = row_id (heap s ! row)"
      "heap (snd (confirmEdit cs s row)) = (heap s)[row := r]"
      "rowsSubject (snd (confirmEdit cs s row)) = rows'"
    unfolding rows'_def idx_def by blast
  then show ?thesis
  proof cases
    case same
    with wf p show ?thesis by simp
  next
    case confirmed
    have ids: "row_id ((heap s)[row := r] ! a) = row_id (heap s ! a)" for a
      using confirmed(1) by (cases "a = row"; cases "row < length (heap s)") (auto simp: list_update_beyond)
    have "map (\<lambda>a. row_id (heap s ! a)) rows' = map (\<lambda>a. row_id (heap s ! a)) (rowsSubject s)"
    proof (cases "0 \<le> idx")
      case False
      then show ?thesis by (simp add: rows'_def)
    next
      case True
      then have "row_id (heap s ! (rowsSubject s ! nat idx)) = row_id (heap s ! row)"
        unfolding idx_def getIndexFromRowId_def by (rule findIndex_found)
      moreover have "nat idx < length (rowsSubject s)"
        using True findIndex_lt [of "\<lambda>element. row_id (heap s ! element) = row_id (heap s ! row)" "rowsSubject s"]
        unfolding idx_def getIndexFromRowId_def by simp
      ultimately have "(map (\<lambda>a. row_id (heap s ! a)) (rowsSubject s))
                         [nat idx := row_id (heap s ! row)]
                       = map (\<lambda>a. row_id (heap s ! a)) (rowsSubject s)"
        by (simp add: list_update_same_conv)
      with True show ?thesis by (simp add: rows'_def map_update)
    qed
    then have "pending (heap s) rows' = pending (heap s) (rowsSubject s)"
      by (simp only: pending_map)
    moreover have "pending ((heap s)[row := r]) rows' = pending (heap s) rows'"
      by (rule pending_cong) (simp add: ids)
    ultimately have "pending ((heap s)[row := r]) rows' \<le> 1" using p by simp
    moreover have "wellFormed (snd (confirmEdit cs s row))"
    proof -
      have "set rows' \<subseteq> insert row (set (rowsSubject s))"
        unfolding rows'_def using set_update_subset_insert [of "rowsSubject s" "nat idx" row] by auto
      with wf row show ?thesis
        unfolding wellFormed_def confirmed(2) confirmed(3) by auto
    qed
    ultimately show ?thesis by (simp add: confirmed(2) confirmed(3))
  qed
qed


lemma updateRowIds_length: "length (updateRowIds cfg index source h) = length h"
  by (simp add: updateRowIds_def updateRowIds_loop_length)

lemma delete_rows: "rowsSubject (delete s i)
    = splice_array (rowsSubject s) (getIndexFromRowId (heap s) i (rowsSubject s)) 1 []"
  by (simp add: delete_def Let_def)

lemma delete_heap: "heap (delete s i)
    = updateRowIds (config s) (getIndexFromRowId (heap s) i (rowsSubject s))
        (rowsSubject (delete s i)) (heap s)"
  by (simp add: delete_def Let_def)

lemma delete_inv:
  assumes wf: "wellFormed s" and p: "pending (heap s) (rowsSubject s) \<le> 1"
  shows "wellFormed (delete s i)
         \<and> pending (heap (delete s i)) (rowsSubject (delete s i)) \<le> 1"
proof -
  have "pending (heap (delete s i)) (rowsSubject (delete s i))
          = pending (heap s) (rowsSubject (delete s i))"
    by (simp only: delete_heap pending_updateRowIds)
  also have "\<dots> \<le> pending (heap s) (rowsSubject s)"
    by (simp only: delete_rows pending_splice_remove)
  finally have "pending (heap (delete s i)) (rowsSubject (delete s i)) \<le> 1"
    using p by simp
  moreover have "wellFormed (delete s i)"
  proof -
    have "set (rowsSubject (delete s i)) \<subseteq> set (rowsSubject s)"
      by (simp only: delete_rows set_splice_remove)
    moreover have "length (heap (delete s i)) = length (heap s)"
      by (simp only: delete_heap updateRowIds_length)
    ultimately show ?thesis using wf unfolding wellFormed_def by auto
  qed
  ultimately show ?thesis by simp
qed

lemma move_rows: "direction \<noteq> 0 \<Longrightarrow> rowsSubject (move s i direction)
    = moveItemInArray (rowsSubject s) (getIndexFromRowId (heap s) i (rowsSubject s))
        (getIndexFromRowId (heap s) i (rowsSubject s) + direction)"
  by (simp add: move_def Let_def)

lemma move_heap: "direction \<noteq> 0 \<Longrightarrow> heap (move s i direction)
    = updateRowIds (config s) 0 (rowsSubject (move s i direction)) (heap s)"
  by (simp add: move_def Let_def)

lemma move_inv:
  assumes wf: "wellFormed s" and p: "pending (heap s) (rowsSubject s) \<le> 1"
  shows "wellFormed (move s i direction)
         \<and> pending (heap (move s i direction)) (rowsSubject (move s i direction)) \<le> 1"
proof (cases "direction = 0")
  case True
  with wf p show ?thesis by (simp add: move_def)
next
  case False
  have "pending (heap (move s i direction)) (rowsSubject (move s i direction))
          = pending (heap s) (rowsSubject (move s i direction))"
    by (simp only: move_heap [OF False] pending_updateRowIds)
  also have "\<dots> = pending (heap s) (rowsSubject s)"
    by (simp only: move_rows [OF False] pending_move)
  finally have "pending (heap (move s i direction)) (rowsSubject (move s i direction)) \<le> 1"
    using p by simp
  moreover have "wellFormed (move s i direction)"
  proof -
    have "set (rowsSubject (move s i direction)) = set (rowsSubject s)"
      by (simp only: move_rows [OF False] set_move)
    moreover have "length (heap (move s i direction)) = length (heap s)"
      by (simp only: move_heap [OF False] updateRowIds_length)
    ultimately show ?thesis using wf unfolding wellFormed_def by auto
  qed
  ultimately show ?thesis by simp
qed

lemma getRowsFromData_fresh:
  assumes "getRowsFromData cs cfg h data = (h', rows)"
  shows "(\<forall>a \<in> set rows. a < length h') \<and> pending h' rows = 0"
proof -
  let ?new = "map (\<lambda>(d, index).
                 createTableElement (patchControls cs)
                   (getRowIdFromIndex cfg (int index) (int (length data)))
                   False d (getRowValidator cs))
            (zip data [0 ..< length data])"
  from assms have h': "h' = h @ ?new" and rows: "rows = [length h ..< length h + length data]"
    by (simp_all add: getRowsFromData_def)
  have len: "length ?new = length data" by simp
  have "row_id (h' ! a) \<noteq> - 1" if "a \<in> set rows" for a
  proof -
    from that rows have bounds: "length h \<le> a" "a < length h + length data"
      by simp_all
    define k where "k = a - length h"
    with bounds have k: "a = length h + k" "k < length data"
      by simp_all
    then have "h' ! a = ?new ! k" by (simp add: h')
    also have "\<dots> = createTableElement (patchControls cs)
                       (getRowIdFromIndex cfg (int k) (int (length data)))
                       False (data ! k) (getRowValidator cs)"
      using k(2) by simp
    finally have "row_id (h' ! a) = getRowIdFromIndex cfg (int k) (int (length data))" by simp
    moreover have "0 \<le> getRowIdFromIndex cfg (int k) (int (length data))"
      using k(2) by (simp add: getRowIdFromIndex_nonneg)
    ultimately show ?thesis by simp
  qed
  then have "pending h' rows = 0" by (simp add: pending_zero)
  moreover have "\<forall>a \<in> set rows. a < length h'"
    unfolding h' rows by (simp add: len)
  ultimately show ?thesis by simp
qed

lemma updateDatasource_inv:
  assumes wf: "wellFormed s" and p: "pending (heap s) (rowsSubject s) \<le> 1"
  shows "wellFormed (updateDatasource cs s ref data e)
         \<and> pending (heap (updateDatasource cs s ref data e))
              (rowsSubject (updateDatasource cs s ref data e)) \<le> 1"
proof (cases "currentData s \<noteq> Some ref")
  case False
  with wf p show ?thesis by (simp add: updateDatasource_def)
next
  case True
  obtain h' rows where g: "getRowsFromData cs (config s) (heap s) data = (h', rows)"
    by (cases "getRowsFromData cs (config s) (heap s) data")
  from True g have "heap (updateDatasource cs s ref data e) = h'"
    and "rowsSubject (updateDatasource cs s ref data e) = rows"
    by (simp_all add: updateDatasource_def Let_def)
  with getRowsFromData_fresh [OF g] show ?thesis
    by (simp add: wellFormed_def)
qed

lemma constructor_inv:
  assumes "TableDataSource_new cs data dataType cfg = Inr s"
  shows "wellFormed s \<and> pending (heap s) (rowsSubject s) \<le> 1"
proof -
  obtain h' rows where g: "getRowsFromData cs cfg [] data = (h', rows)"
    by (cases "getRowsFromData cs cfg [] data")
  from assms g have "heap s = h'" and "rowsSubject s = rows"
    by (auto simp: TableDataSource_new_def Let_def split: if_splits)
  with getRowsFromData_fresh [OF g] show ?thesis
    by (simp add: wellFormed_def)
qed

lemma step_inv:
  assumes "wellFormed s \<and> pending (heap s) (rowsSubject s) \<le> 1"
    and "step cs s x = Some s'"
  shows "wellFormed s' \<and> pending (heap s') (rowsSubject s') \<le> 1"
proof (cases x)
  case (CreateNew insertAt)
  with assms createNew_inv [of s cs insertAt] show ?thesis by auto
next
  case (ConfirmCreate row)
  with assms confirmCreate_inv [of s cs row] show ?thesis by (auto split: if_splits)
next
  case (ConfirmEdit row)
  with assms confirmEdit_inv [of s row cs] show ?thesis by (auto split: if_splits)
next
  case (Delete i)
  with assms delete_inv [of s i] show ?thesis by auto
next
  case (Move i direction)
  with assms move_inv [of s i direction] show ?thesis by auto
next
  case (UpdateDatasource ref data e)
  with assms updateDatasource_inv [of s cs ref data e] show ?thesis by auto
qed

lemma run_inv:
  "wellFormed s \<and> pending (heap s) (rowsSubject s) \<le> 1 \<Longrightarrow> run cs s xs = Some s'
     \<Longrightarrow> wellFormed s' \<and> pending (heap s') (rowsSubject s') \<le> 1"
proof (induction xs arbitrary: s)
  case Nil
  then show ?case by simp
next
  case (Cons x xs)
  from Cons.prems(2) obtain s1 where s1: "step cs s x = Some s1" and r: "run cs s1 xs = Some s'"
    by (auto split: option.splits)
  from Cons.prems(1) s1 have "wellFormed s1 \<and> pending (heap s1) (rowsSubject s1) \<le> 1"
    by (rule step_inv)
  then show ?case using r by (rule Cons.IH)
qed

text \<open>
  C2. In every state that a sequence of operations reaches from a constructed data
  source, at most one row of the sequence has the id \<open>-1\<close>; when there is one,
  \<open>createNew\<close> changes nothing, and in any case there is exactly one pending row after
  \<open>createNew\<close>.
\<close>

theorem single_pending_row:
  assumes "TableDataSource_new cs data dataType cfg = Inr s0"
    and "run cs s0 xs = Some s"
  shows "pendingCount s \<le> 1
         \<and> (pendingCount s = 1 \<longrightarrow> createNew cs s insertAt = s)
         \<and> pendingCount (createNew cs s insertAt) = 1"
proof -
  from constructor_inv [OF assms(1)] assms(2)
  have inv: "wellFormed s \<and> pending (heap s) (rowsSubject s) \<le> 1"
    by (rule run_inv)
  then have le: "pendingCount s \<le> 1" by (simp add: pendingCount_pending)
  have noop: "createNew cs s insertAt = s" if "pendingCount s = 1"
    using that by (simp add: createNew_noop existsNewElement_pending pendingCount_pending)
  have "pendingCount (createNew cs s insertAt) = 1"
  proof (cases "pendingCount s = 1")
    case True
    with noop show ?thesis by simp
  next
    case False
    with le have z: "pending (heap s) (rowsSubject s) = 0" by (simp add: pendingCount_pending)
    then have ne: "\<not> existsNewElement (heap s) (rowsSubject s)"
      by (simp add: existsNewElement_pending)
    from createNew_inv [of s cs insertAt] inv
    have "pending (heap (createNew cs s insertAt)) (rowsSubject (createNew cs s insertAt)) \<le> 1"
      by simp
    moreover from createNew_shape [OF ne, of cs insertAt]
    have "0 < pending (heap (createNew cs s insertAt)) (rowsSubject (createNew cs s insertAt))"
      by (auto simp: pending_def nth_append)
    ultimately show ?thesis by (simp add: pendingCount_pending)
  qed
  with le noop show ?thesis by simp
qed

text \<open>
  Witness for C2: \<open>createNew\<close> called twice on the rows A, B, C leaves one pending row.
\<close>

theorem single_pending_row_witness:
  "run acceptAll (people defaultOptions) [CreateNew None, CreateNew (Some 1)]
     = Some (withPending acceptAll defaultOptions)
   \<and> pendingCount (withPending acceptAll defaultOptions) = 1
   \<and> createNew acceptAll (withPending acceptAll defaultOptions) (Some 1)
       = withPending acceptAll defaultOptions"
proof -
  have c: "TableDataSource_new acceptAll [(''A'', 1), (''B'', 2), (''C'', 3)] (Some ([], 0)) defaultOptions
             = Inr (people defaultOptions)"
    by code_simp
  have r: "run acceptAll (people defaultOptions) [CreateNew None, CreateNew (Some 1)]
             = Some (withPending acceptAll defaultOptions)"
    by code_simp
  have p: "pendingCount (withPending acceptAll defaultOptions) = 1"
    by code_simp
  show ?thesis
    using single_pending_row [OF c r, of "Some 1"] r p by simp
qed

end
